theory Spec2Isabelle
  imports Complex_Main "HOL-Library.Multiset"
begin

section \<open>The impression tracker of \<open>app.py\<close>\<close>

text \<open>
  The program is a Streamlit script: a dictionary of session values, two button callbacks
  (\<open>begin_callback\<close>, \<open>next_callback\<close>), one pure scoring function (\<open>compute_level\<close>) and
  a page body chosen by the phase. The session dictionary is a record that every callback
  and page takes and returns; a Python exception is a value of \<open>py_error\<close>.

  Numbers. The sliders deliver numbers between 0 and 100 in steps of 0.1, and
  \<open>compute_level\<close> is written for any Python number. They are modelled as exact
  rationals: \<open>-\<close>, \<open>abs\<close>, \<open>sum\<close>, \<open>/\<close> and the comparisons are the exact ones. The
  rounding of binary floating point is not part of this model, so nothing proved here
  speaks about the last bit of a sum or a quotient of floats.
\<close>

subsection \<open>Python values and exceptions\<close>

datatype py_error =
    RequestException
  | HTTPError
  | JSONDecodeError
  | ValueError
  | IndexError
  | KeyError
  | TypeError
  | ZeroDivisionError

text \<open>\<open>a / b\<close> on numbers: true division, raising on a zero divisor.\<close>

definition py_truediv :: "rat \<Rightarrow> rat \<Rightarrow> py_error + rat" where
  "py_truediv a b = (if b = 0 then Inl ZeroDivisionError else Inr (a / b))"

text \<open>The builtin \<open>sum\<close>: a left-to-right accumulation that starts at 0.\<close>

definition py_sum :: "rat list \<Rightarrow> rat" where
  "py_sum xs = foldl (+) 0 xs"

subsection \<open>The scoring function\<close>

text \<open>
  \<^verbatim>\<open>
  def compute_level(start, responses):
      deltas = [abs(r-start) for r in responses]
      avg = sum(deltas)/len(deltas) if deltas else 0
      if avg > 20: return 1,"Flip-Flopper"
      if avg > 10: return 2,"Malleable Mind"
      if avg > 5:  return 3,"Moderately Moved"
      if avg > 2:  return 4,"Steady Supporter"
      return (5,"Buttigieg Stan") if start>=80 else (4,"Steady Supporter")
  \<close>
  The conditional expression evaluates the division only when \<open>deltas\<close> is not empty.
\<close>

definition compute_level :: "rat \<Rightarrow> rat list \<Rightarrow> py_error + (int \<times> string)" where
  "compute_level start responses =
     (let deltas = map (\<lambda>r. \<bar>r - start\<bar>) responses in
      case (if deltas \<noteq> [] then py_truediv (py_sum deltas) (of_nat (length deltas))
            else Inr 0) of
        Inl e \<Rightarrow> Inl e
      | Inr avg \<Rightarrow>
          if avg > 20 then Inr (1, ''Flip-Flopper'')
          else if avg > 10 then Inr (2, ''Malleable Mind'')
          else if avg > 5 then Inr (3, ''Moderately Moved'')
          else if avg > 2 then Inr (4, ''Steady Supporter'')
          else Inr (if start \<ge> 80 then (5, ''Buttigieg Stan'') else (4, ''Steady Supporter'')))"

subsection \<open>The scoring rule in the words of the specification\<close>

text \<open>
  \<open>deltas[i] = abs(responses[i] - startingScore)\<close>; \<open>avgDelta\<close> is their mean, or 0 when
  there is no response.
\<close>

definition avgDelta :: "rat \<Rightarrow> rat list \<Rightarrow> rat" where
  "avgDelta startingScore responses =
     (if responses = [] then 0
      else (\<Sum>i<length responses. \<bar>responses ! i - startingScore\<bar>) / of_nat (length responses))"

text \<open>The table of thresholds, read from top to bottom; the first row that matches wins.\<close>

definition computeLevel_spec :: "rat \<Rightarrow> rat list \<Rightarrow> int \<times> string" where
  "computeLevel_spec startingScore responses =
     (let a = avgDelta startingScore responses in
      if a > 20 then (1, ''Flip-Flopper'')
      else if a > 10 then (2, ''Malleable Mind'')
      else if a > 5 then (3, ''Moderately Moved'')
      else if a > 2 then (4, ''Steady Supporter'')
      else if startingScore \<ge> 80 then (5, ''Buttigieg Stan'')
      else (4, ''Steady Supporter''))"

subsection \<open>Exposures and the news provider\<close>

text \<open>An exposure is the dictionary \<^verbatim>\<open>{"headline": title, "summary": desc}\<close>.\<close>

record exposure =
  headline :: string
  summary :: string

text \<open>
  One element of the \<open>articles\<close> array of the provider's reply. Only three keys are read,
  and only for their truth value and their text: \<open>None\<close> stands for a key that is missing
  or null.
\<close>

record article =
  title :: "string option"
  description :: "string option"
  content :: "string option"

text \<open>Python's truth value of an optional text, and \<open>a or b\<close>.\<close>

definition truthy :: "string option \<Rightarrow> bool" where
  "truthy v = (case v of None \<Rightarrow> False | Some s \<Rightarrow> s \<noteq> [])"

definition py_or :: "string option \<Rightarrow> string option \<Rightarrow> string option" where
  "py_or a b = (if truthy a then a else b)"

text \<open>
  The body of the loop over the articles:
  \<^verbatim>\<open>
      title = art.get("title", "")
      desc  = art.get("description") or art.get("content") or ""
      if title and desc:
          exps.append({"headline": title, "summary": desc})
  \<close>
\<close>

definition exposure_of :: "article \<Rightarrow> exposure option" where
  "exposure_of art =
     (let desc = py_or (py_or (description art) (content art)) (Some []) in
      case (title art, desc) of
        (Some t, Some d) \<Rightarrow>
          if t \<noteq> [] \<and> d \<noteq> [] then Some \<lparr>headline = t, summary = d\<rparr> else None
      | _ \<Rightarrow> None)"

text \<open>
  What \<open>requests.get\<close> meets: the call raises, or a reply arrives with a status code and a
  body. The body read by \<open>r.json().get("articles", [])\<close> is \<open>None\<close> when it is not JSON
  and the array of articles otherwise (empty when the key is absent).
\<close>

datatype http_reply =
    ConnectionFailed
  | Reply nat "article list option"

text \<open>
  \<^verbatim>\<open>
  def fetch_live_exposures(query: str, max_articles: int = 1):
      ...
      r = requests.get(url, params=params)
      r.raise_for_status()
      articles = r.json().get("articles", [])
      exps = []
      for art in articles: ...
      return exps
  \<close>
  The network is the parameter \<open>http_get\<close>, from the query and the page size to the
  reply. \<open>raise_for_status\<close> raises for the status codes 400 to 599. The cache in front of
  the function only saves calls and is left out.
\<close>

definition fetch_live_exposures ::
  "(string \<Rightarrow> nat \<Rightarrow> http_reply) \<Rightarrow> string \<Rightarrow> nat \<Rightarrow> py_error + exposure list" where
  "fetch_live_exposures http_get query max_articles =
     (case http_get query max_articles of
        ConnectionFailed \<Rightarrow> Inl RequestException
      | Reply status body \<Rightarrow>
          if 400 \<le> status \<and> status < 600 then Inl HTTPError
          else (case body of
                  None \<Rightarrow> Inl JSONDecodeError
                | Some articles \<Rightarrow> Inr (List.map_filter exposure_of articles)))"

subsection \<open>Sampling without replacement\<close>

text \<open>
  \<open>random.sample(population, k)\<close> of Python's standard library, as its pool loop:
  \<^verbatim>\<open>
      if not 0 <= k <= n: raise ValueError(...)
      pool = list(population)
      for i in range(k):
          j = randbelow(n - i)
          result[i] = pool[j]
          pool[j] = pool[n - i - 1]
  \<close>
  The pool of the model is the part of the list still in play (its first \<open>n - i\<close>
  places). The random source \<open>rng\<close> gives the raw draw of each round, and \<open>randbelow\<close>
  reduces it below its bound.
\<close>

fun sample_pool :: "(nat \<Rightarrow> nat) \<Rightarrow> nat \<Rightarrow> nat \<Rightarrow> 'a list \<Rightarrow> 'a list" where
  "sample_pool rng i 0 pool = []"
| "sample_pool rng i (Suc m) pool =
     (let j = rng i mod length pool in
      pool ! j # sample_pool rng (Suc i) m (butlast (pool[j := last pool])))"

definition random_sample :: "(nat \<Rightarrow> nat) \<Rightarrow> 'a list \<Rightarrow> nat \<Rightarrow> py_error + 'a list" where
  "random_sample rng population k =
     (if k > length population then Inl ValueError
      else Inr (sample_pool rng 0 k population))"

subsection \<open>The session\<close>

definition CANDIDATE :: string where
  "CANDIDATE = ''Pete Buttigieg''"

definition NUM_EXPOSURES :: nat where
  "NUM_EXPOSURES = 10"

text \<open>The phase is one of the texts "init", "survey" and "done".\<close>

datatype phase = Init | Survey | Done

text \<open>
  \<open>st.session_state\<close>: the keys the script sets, and the keys \<open>slider_0\<close>, \<open>slider_1\<close>, ...
  of the rating sliders as a map from the index.
\<close>

record session =
  user_id :: string
  phase :: phase
  start_slider :: rat
  start_score :: "rat option"
  exposures :: "exposure list"
  idx :: nat
  responses :: "rat list"
  slider :: "nat \<Rightarrow> rat option"

text \<open>The defaults a new session gets, with its identifier.\<close>

definition session_defaults :: "string \<Rightarrow> session" where
  "session_defaults uid =
     \<lparr>user_id = uid, phase = Init, start_slider = 50, start_score = None, exposures = [],
      idx = 0, responses = [], slider = (\<lambda>i. None)\<rparr>"

text \<open>
  A callback or a page ends normally or with an exception; either way the assignments
  made so far stay in the session.
\<close>

type_synonym outcome = "(py_error + unit) \<times> session"

text \<open>
  \<^verbatim>\<open>
  def begin_callback():
      st.session_state.start_score = st.session_state.start_slider
      live = fetch_live_exposures(CANDIDATE, max_articles=10)
      sampled = random.sample(live, min(len(live), NUM_EXPOSURES))
      st.session_state.exposures = sampled
      st.session_state.idx       = 0
      st.session_state.responses = []
      st.session_state.phase     = "survey"
  \<close>
\<close>

definition begin_callback ::
  "(nat \<Rightarrow> nat) \<Rightarrow> (string \<Rightarrow> nat \<Rightarrow> http_reply) \<Rightarrow> session \<Rightarrow> outcome" where
  "begin_callback rng http_get s =
     (let s1 = s\<lparr>start_score := Some (start_slider s)\<rparr> in
      case fetch_live_exposures http_get CANDIDATE 10 of
        Inl e \<Rightarrow> (Inl e, s1)
      | Inr live \<Rightarrow>
          (case random_sample rng live (min (length live) NUM_EXPOSURES) of
             Inl e \<Rightarrow> (Inl e, s1)
           | Inr sampled \<Rightarrow>
               (Inr (), s1\<lparr>exposures := sampled, idx := 0, responses := [], phase := Survey\<rparr>)))"

text \<open>
  \<^verbatim>\<open>
  def next_callback():
      i = st.session_state.idx
      key = f"slider_{i}"
      st.session_state.responses.append(st.session_state[key])
      st.session_state.idx += 1
      if st.session_state.idx >= len(st.session_state.exposures):
          st.session_state.phase = "done"
  \<close>
  Reading a key that the session does not hold raises \<open>KeyError\<close>.
\<close>

definition next_callback :: "session \<Rightarrow> outcome" where
  "next_callback s =
     (let i = idx s in
      case slider s i of
        None \<Rightarrow> (Inl KeyError, s)
      | Some v \<Rightarrow>
          (let s1 = s\<lparr>responses := responses s @ [v]\<rparr>;
               s2 = s1\<lparr>idx := idx s1 + 1\<rparr>
           in if idx s2 \<ge> length (exposures s2) then (Inr (), s2\<lparr>phase := Done\<rparr>)
              else (Inr (), s2)))"

text \<open>
  The survey page, as far as it reads and writes the session:
  \<^verbatim>\<open>
      i   = st.session_state.idx
      exp = st.session_state.exposures[i]
      ...
      skey = f"slider_{i}"
      if skey not in st.session_state:
          st.session_state[skey] = float(st.session_state.start_score if i==0
                                         else st.session_state.responses[-1])
  \<close>
  \<open>exposures[i]\<close> raises \<open>IndexError\<close> beyond the list, \<open>responses[-1]\<close> on the empty
  list, and \<open>float(None)\<close> raises \<open>TypeError\<close>.
\<close>

definition survey_page :: "session \<Rightarrow> outcome" where
  "survey_page s =
     (let i = idx s in
      if i \<ge> length (exposures s) then (Inl IndexError, s)
      else if slider s i \<noteq> None then (Inr (), s)
      else if i = 0 then
        (case start_score s of
           None \<Rightarrow> (Inl TypeError, s)
         | Some v \<Rightarrow> (Inr (), s\<lparr>slider := (slider s)(i \<mapsto> v)\<rparr>))
      else if responses s = [] then (Inl IndexError, s)
      else (Inr (), s\<lparr>slider := (slider s)(i \<mapsto> last (responses s))\<rparr>))"

subsection \<open>The final page: the rows to store\<close>

text \<open>
  One stored row. The keys \<open>user_id\<close>, \<open>headline\<close> and \<open>summary\<close> of the source carry the
  prefix \<open>row_\<close> here, since the session and the exposure have fields of these names.
\<close>

record row =
  row_user_id :: string
  initial_score :: rat
  snippet_i :: nat
  row_headline :: string
  row_summary :: string
  rating :: rat

text \<open>
  \<^verbatim>\<open>
      payload = []
      for i, e in enumerate(st.session_state.exposures):
          payload.append({"user_id": st.session_state.user_id, "initial_score": start,
                          "snippet_i": i, "headline": e["headline"],
                          "summary": e["summary"], "rating": resp[i]})
  \<close>
  \<open>resp[i]\<close> raises \<open>IndexError\<close> when \<open>i\<close> is beyond the responses.
\<close>

fun payload_loop ::
  "string \<Rightarrow> rat \<Rightarrow> rat list \<Rightarrow> nat \<Rightarrow> exposure list \<Rightarrow> row list \<Rightarrow> py_error + row list" where
  "payload_loop uid start resp i [] payload = Inr payload"
| "payload_loop uid start resp i (e # es) payload =
     (if i < length resp
      then payload_loop uid start resp (Suc i) es
             (payload @ [\<lparr>row_user_id = uid, initial_score = start, snippet_i = i,
                          row_headline = headline e, row_summary = summary e,
                          rating = resp ! i\<rparr>])
      else Inl IndexError)"

definition build_payload ::
  "string \<Rightarrow> rat \<Rightarrow> exposure list \<Rightarrow> rat list \<Rightarrow> py_error + row list" where
  "build_payload uid start exps resp = payload_loop uid start resp 0 exps []"

text \<open>
  The final page up to the rows: the level, the summary line (which reads \<open>resp[-1]\<close>) and
  the payload. A start that was never set makes \<open>compute_level\<close> raise \<open>TypeError\<close>. The
  page changes nothing in the session.
\<close>

definition final_page :: "session \<Rightarrow> py_error + ((int \<times> string) \<times> row list)" where
  "final_page s =
     (case start_score s of
        None \<Rightarrow> Inl TypeError
      | Some start \<Rightarrow>
          (case compute_level start (responses s) of
             Inl e \<Rightarrow> Inl e
           | Inr level \<Rightarrow>
               if responses s = [] then Inl IndexError
               else (case build_payload (user_id s) start (exposures s) (responses s) of
                       Inl e \<Rightarrow> Inl e
                     | Inr payload \<Rightarrow> Inr (level, payload))))"

subsection \<open>The sessions that can arise\<close>

text \<open>
  The script shows the start slider and the Begin button in the phase \<open>Init\<close>, and the
  page of the current story with its slider and the Next button in the phase \<open>Survey\<close>;
  the final page has no control. A session arises from the defaults by moving a slider
  that is shown, by a callback of a button that is shown (whether it ends normally or
  raises), or by running the survey page.
\<close>

inductive reachable :: "session \<Rightarrow> bool" where
  start: "reachable (session_defaults uid)"
| move_start_slider:
    "reachable s \<Longrightarrow> phase s = Init \<Longrightarrow> reachable (s\<lparr>start_slider := v\<rparr>)"
| click_begin:
    "reachable s \<Longrightarrow> phase s = Init \<Longrightarrow> reachable (snd (begin_callback rng http_get s))"
| show_survey:
    "reachable s \<Longrightarrow> phase s = Survey \<Longrightarrow> reachable (snd (survey_page s))"
| move_slider:
    "reachable s \<Longrightarrow> phase s = Survey \<Longrightarrow> slider s (idx s) \<noteq> None \<Longrightarrow>
     reachable (s\<lparr>slider := (slider s)(idx s \<mapsto> v)\<rparr>)"
| click_next:
    "reachable s \<Longrightarrow> phase s = Survey \<Longrightarrow> reachable (snd (next_callback s))"

subsection \<open>What holds of every session that arises\<close>

text \<open>
  As many responses as the index says; no rating slider beyond the current story; in the
  survey the index points at a story, unless there is no story at all; the final phase is
  entered with the index at the end of a list that is not empty.
\<close>

definition session_inv :: "session \<Rightarrow> bool" where
  "session_inv s \<longleftrightarrow>
     length (responses s) = idx s \<and>
     (\<forall>i. idx s < i \<longrightarrow> slider s i = None) \<and>
     (case phase s of
        Init \<Rightarrow> idx s = 0 \<and> slider s 0 = None
      | Survey \<Rightarrow>
          start_score s \<noteq> None \<and>
          (if exposures s = [] then idx s = 0 \<and> slider s 0 = None
           else idx s < length (exposures s))
      | Done \<Rightarrow>
          start_score s \<noteq> None \<and> exposures s \<noteq> [] \<and> idx s = length (exposures s))"

subsection \<open>Example replies and sessions\<close>

text \<open>
  Four articles, three of them usable: one with a description, one with only a content,
  one whose description is empty and whose content is not; the fourth has no text.
\<close>

definition story_a :: article where
  "story_a = \<lparr>title = Some ''Mayor speaks'', description = Some ''A speech.'', content = None\<rparr>"

definition story_b :: article where
  "story_b = \<lparr>title = Some ''Poll released'', description = None, content = Some ''Numbers.''\<rparr>"

definition story_c :: article where
  "story_c = \<lparr>title = Some ''Town hall'', description = Some [], content = Some ''Questions.''\<rparr>"

definition no_text :: article where
  "no_text = \<lparr>title = Some ''Untitled'', description = None, content = None\<rparr>"

definition three_usable :: "string \<Rightarrow> nat \<Rightarrow> http_reply" where
  "three_usable query max_articles = Reply 200 (Some [story_a, no_text, story_b, story_c])"

definition nothing_usable :: "string \<Rightarrow> nat \<Rightarrow> http_reply" where
  "nothing_usable query max_articles = Reply 200 (Some [no_text])"

definition offline :: "string \<Rightarrow> nat \<Rightarrow> http_reply" where
  "offline query max_articles = ConnectionFailed"

definition unavailable :: "string \<Rightarrow> nat \<Rightarrow> http_reply" where
  "unavailable query max_articles = Reply 503 None"

text \<open>A session in the survey, at the first and at the last of two stories.\<close>

definition two_stories :: "exposure list" where
  "two_stories =
     [\<lparr>headline = ''Mayor speaks'', summary = ''A speech.''\<rparr>,
      \<lparr>headline = ''Poll released'', summary = ''Numbers.''\<rparr>]"

definition at_first_story :: session where
  "at_first_story =
     \<lparr>user_id = ''u'', phase = Survey, start_slider = 50, start_score = Some 50,
      exposures = two_stories, idx = 0, responses = [], slider = [0 \<mapsto> 60]\<rparr>"

definition at_last_story :: session where
  "at_last_story =
     \<lparr>user_id = ''u'', phase = Survey, start_slider = 50, start_score = Some 50,
      exposures = two_stories, idx = 1, responses = [60], slider = [0 \<mapsto> 60, 1 \<mapsto> 70]\<rparr>"

text \<open>
  A run: Begin is pressed on a new session with three usable articles and a random source
  that always draws 2; the first story is shown, rated 70, and Next is pressed.
\<close>

definition after_begin :: session where
  "after_begin = snd (begin_callback (\<lambda>i. 2) three_usable (session_defaults ''u''))"

definition first_story_shown :: session where
  "first_story_shown = snd (survey_page after_begin)"

definition first_story_rated :: session where
  "first_story_rated =
     first_story_shown\<lparr>slider := (slider first_story_shown)(idx first_story_shown \<mapsto> 70)\<rparr>"

definition second_story :: session where
  "second_story = snd (next_callback first_story_rated)"

section \<open>Properties of the scoring function\<close>

lemma py_sum_acc: "foldl (+) a xs = a + sum_list xs" for a :: rat
  by (induction xs arbitrary: a) (simp_all add: add.assoc)

lemma py_sum_sum_list: "py_sum xs = sum_list xs"
  by (simp add: py_sum_def py_sum_acc)

lemma sum_list_deltas_nth:
  "sum_list (map (\<lambda>r. \<bar>r - s\<bar>) rs) = (\<Sum>i<length rs. \<bar>rs ! i - s\<bar>)" for s :: rat
proof -
  have "sum_list (map (\<lambda>r. \<bar>r - s\<bar>) rs) = (\<Sum>i = 0..<length rs. \<bar>rs ! i - s\<bar>)"
    by (simp add: sum_list_sum_nth)
  also have "{0..<length rs} = {..<length rs}"
    by auto
  finally show ?thesis .
qed

lemma compute_level_avg:
  "(if map (\<lambda>r. \<bar>r - s\<bar>) rs \<noteq> []
    then py_truediv (py_sum (map (\<lambda>r. \<bar>r - s\<bar>) rs)) (of_nat (length (map (\<lambda>r. \<bar>r - s\<bar>) rs)))
    else Inr 0) = Inr (avgDelta s rs)"
  by (simp add: py_truediv_def py_sum_sum_list avgDelta_def sum_list_deltas_nth)

lemma compute_level_refines:
  "compute_level s rs = Inr (computeLevel_spec s rs)"
  unfolding compute_level_def Let_def compute_level_avg computeLevel_spec_def
  by simp

lemma avgDelta_mset:
  assumes "mset p = mset rs"
  shows "avgDelta s p = avgDelta s rs"
proof -
  let ?d = "\<lambda>xs. map (\<lambda>r. \<bar>r - s\<bar>) xs"
  have "mset (?d p) = mset (?d rs)"
    using assms by simp
  then have "sum_mset (mset (?d p)) = sum_mset (mset (?d rs))"
    by (simp only:)
  then have sum: "sum_list (?d p) = sum_list (?d rs)"
    by (simp only: sum_mset_sum_list)
  have len: "length p = length rs"
    using assms by (rule mset_eq_length)
  then have emp: "p = [] \<longleftrightarrow> rs = []"
    by auto
  have avg: "avgDelta s xs = (if xs = [] then 0 else sum_list (?d xs) / of_nat (length xs))"
    for xs
    by (simp add: avgDelta_def sum_list_deltas_nth)
  show ?thesis
    by (simp only: avg sum len emp)
qed


text \<open>
  C2 as stated is false: for a start of 50 and the responses 55 and 50 the deltas are 5
  and 0, their mean is 2.5, and 2.5 is not above 5. The result is not level 3.
\<close>

theorem compute_level_50_55_50_counterexample:
  "compute_level 50 [55, 50] \<noteq> Inr (3, ''Moderately Moved'')"
  by (simp add: compute_level_def py_truediv_def py_sum_def)

text \<open>
  C2 amended. For a start of 50 and the responses 55 and 50 the mean delta is 2.5, which
  is above 2 and not above 5: the result is level 4, "Steady Supporter".
\<close>

theorem compute_level_50_55_50:
  "avgDelta 50 [55, 50] = 5 / 2 \<and> compute_level 50 [55, 50] = Inr (4, ''Steady Supporter'')"
  by (simp add: avgDelta_def compute_level_def py_truediv_def py_sum_def lessThan_Suc
      numeral_2_eq_2)

text \<open>
  In the exact arithmetic of this model the result does not depend on the order of the
  responses: two lists with the same elements, each as often, have the same sum of
  deltas. This is a fact about exact sums only. A sum of binary floating-point numbers
  is rounded after each addition and can differ in its last bit from one order to
  another, which can move a mean across a threshold.
\<close>

lemma compute_level_mset:
  assumes "mset p = mset resp"
  shows "compute_level startingScore p = compute_level startingScore resp"
  by (simp add: compute_level_refines computeLevel_spec_def avgDelta_mset [OF assms])

section \<open>Sampling\<close>

lemma length_sample_pool: "length (sample_pool rng i k pool) = k"
  by (induction k arbitrary: i pool) (simp_all add: Let_def)

lemma mset_pool_step:
  assumes "j < length pool"
  shows "add_mset (pool ! j) (mset (butlast (pool[j := last pool]))) = mset pool"
proof -
  let ?ys = "pool[j := last pool]"
  from assms have ne: "pool \<noteq> []" by auto
  then have ne': "?ys \<noteq> []" by simp
  have lst: "last ?ys = last pool"
    using assms ne by (simp add: last_conv_nth nth_list_update)
  have "mset ?ys = add_mset (last ?ys) (mset (butlast ?ys))"
    using ne' by (metis append_butlast_last_id mset.simps(2) mset_append union_mset_add_mset_right add.right_neutral mset.simps(1))
  moreover have "mset ?ys = add_mset (last pool) (mset pool - {#pool ! j#})"
    using assms by (simp add: mset_update)
  ultimately have "mset (butlast ?ys) = mset pool - {#pool ! j#}"
    using lst by simp
  then show ?thesis
    using assms by simp
qed

lemma mset_sample_pool:
  "k \<le> length pool \<Longrightarrow> mset (sample_pool rng i k pool) \<subseteq># mset pool"
proof (induction k arbitrary: i pool)
  case 0
  then show ?case by simp
next
  case (Suc k)
  let ?j = "rng i mod length pool"
  let ?rest = "butlast (pool[?j := last pool])"
  from Suc.prems have "0 < length pool" by linarith
  then have j: "?j < length pool" by (rule mod_less_divisor)
  have "k \<le> length ?rest" using Suc.prems by simp
  then have "mset (sample_pool rng (Suc i) k ?rest) \<subseteq># mset ?rest"
    by (rule Suc.IH)
  then have "add_mset (pool ! ?j) (mset (sample_pool rng (Suc i) k ?rest))
      \<subseteq># add_mset (pool ! ?j) (mset ?rest)"
    by simp
  then show ?case
    by (simp add: Let_def mset_pool_step [OF j])
qed

lemma sample_pool_map:
  "k \<le> length pool \<Longrightarrow> sample_pool rng i k (map f pool) = map f (sample_pool rng i k pool)"
proof (induction k arbitrary: i pool)
  case 0
  then show ?case by simp
next
  case (Suc k)
  let ?j = "rng i mod length pool"
  from Suc.prems have ne: "pool \<noteq> []" by auto
  then have j: "?j < length pool" by simp
  have step: "butlast ((map f pool)[?j := last (map f pool)]) = map f (butlast (pool[?j := last pool]))"
    using ne by (simp add: last_map map_butlast map_update)
  have "k \<le> length (butlast (pool[?j := last pool]))"
    using Suc.prems by simp
  then show ?case
    using j by (simp add: Let_def step Suc.IH)
qed

lemma distinct_sub_mset:
  assumes "mset ys \<subseteq># mset xs" and "distinct xs"
  shows "distinct ys"
proof -
  have "count (mset ys) a = (if a \<in> set ys then 1 else 0)" for a
  proof (cases "a \<in> set ys")
    case True
    then have "0 < count (mset ys) a"
      by simp
    moreover have "count (mset ys) a \<le> count (mset xs) a"
      using assms(1) by (rule mset_subset_eq_count)
    moreover have "count (mset xs) a \<le> 1"
      using assms(2) by (simp add: distinct_count_atmost_1)
    ultimately have "count (mset ys) a = 1"
      by linarith
    with True show ?thesis
      by simp
  next
    case False
    then show ?thesis
      by (simp add: count_eq_zero_iff)
  qed
  then show ?thesis
    by (simp only: distinct_count_atmost_1) simp
qed

lemma sample_pool_positions:
  assumes "k \<le> length pool"
  shows "sample_pool rng i k pool = map ((!) pool) (sample_pool rng i k [0..<length pool])"
proof -
  from assms have "k \<le> length [0..<length pool]"
    by simp
  then have "sample_pool rng i k (map ((!) pool) [0..<length pool]) =
      map ((!) pool) (sample_pool rng i k [0..<length pool])"
    by (rule sample_pool_map)
  then show ?thesis
    by (simp only: map_nth)
qed

lemma sample_pool_distinct_positions:
  assumes "k \<le> n"
  shows "distinct (sample_pool rng i k [0..<n]) \<and> set (sample_pool rng i k [0..<n]) \<subseteq> {..<n}"
proof -
  from assms have "k \<le> length [0..<n]"
    by simp
  then have sub: "mset (sample_pool rng i k [0..<n]) \<subseteq># mset [0..<n]"
    by (rule mset_sample_pool)
  have "distinct [0..<n]"
    by simp
  with sub have "distinct (sample_pool rng i k [0..<n])"
    by (rule distinct_sub_mset)
  moreover from sub have "set_mset (mset (sample_pool rng i k [0..<n])) \<subseteq> set_mset (mset [0..<n])"
    by (rule set_mset_mono)
  then have "set (sample_pool rng i k [0..<n]) \<subseteq> set [0..<n]"
    by (simp only: set_mset_mset)
  then have "set (sample_pool rng i k [0..<n]) \<subseteq> {..<n}"
    by auto
  ultimately show ?thesis
    by simp
qed

section \<open>The session invariant\<close>

lemma inv_defaults: "session_inv (session_defaults uid)"
  by (simp add: session_inv_def session_defaults_def)

lemma begin_callback_cases:
  obtains (raised) e where "begin_callback rng g s = (Inl e, s\<lparr>start_score := Some (start_slider s)\<rparr>)"
  | (ok) live where "fetch_live_exposures g CANDIDATE 10 = Inr live"
      "begin_callback rng g s =
        (Inr (), s\<lparr>start_score := Some (start_slider s),
                    exposures := sample_pool rng 0 (min (length live) NUM_EXPOSURES) live,
                    idx := 0, responses := [], phase := Survey\<rparr>)"
proof (cases "fetch_live_exposures g CANDIDATE 10")
  case (Inl e)
  then have "begin_callback rng g s = (Inl e, s\<lparr>start_score := Some (start_slider s)\<rparr>)"
    by (simp add: begin_callback_def)
  then show ?thesis by (rule raised)
next
  case (Inr live)
  then have "begin_callback rng g s =
        (Inr (), s\<lparr>start_score := Some (start_slider s),
                    exposures := sample_pool rng 0 (min (length live) NUM_EXPOSURES) live,
                    idx := 0, responses := [], phase := Survey\<rparr>)"
    by (simp add: begin_callback_def random_sample_def)
  with Inr show ?thesis by (rule ok)
qed

lemma inv_begin:
  assumes "session_inv s" "phase s = Init"
  shows "session_inv (snd (begin_callback rng g s))"
proof (cases rule: begin_callback_cases [of rng g s])
  case (raised e)
  with assms show ?thesis
    by (simp add: session_inv_def)
next
  case (ok live)
  from assms have "slider s i = None" for i
    by (cases i) (simp_all add: session_inv_def)
  with assms ok(2) show ?thesis
    by (simp add: session_inv_def)
qed

lemma inv_move_start_slider:
  "session_inv s \<Longrightarrow> session_inv (s\<lparr>start_slider := v\<rparr>)"
  by (simp add: session_inv_def split: phase.splits)

lemma inv_survey_page:
  assumes "session_inv s" "phase s = Survey"
  shows "session_inv (snd (survey_page s))"
  using assms
  by (auto simp add: session_inv_def survey_page_def Let_def split: option.splits if_splits)

lemma inv_move_slider:
  assumes "session_inv s" "phase s = Survey" "slider s (idx s) \<noteq> None"
  shows "session_inv (s\<lparr>slider := (slider s)(idx s \<mapsto> v)\<rparr>)"
  using assms
  by (auto simp add: session_inv_def split: if_splits)

lemma inv_next:
  assumes "session_inv s" "phase s = Survey"
  shows "session_inv (snd (next_callback s))"
  using assms
  by (auto simp add: session_inv_def next_callback_def Let_def split: option.splits if_splits)

lemma reachable_inv: "reachable s \<Longrightarrow> session_inv s"
proof (induction rule: reachable.induct)
  case (start uid)
  show ?case by (rule inv_defaults)
next
  case (move_start_slider s v)
  then show ?case by (simp add: inv_move_start_slider)
next
  case (click_begin s rng http_get)
  then show ?case by (simp add: inv_begin)
next
  case (show_survey s)
  then show ?case by (simp add: inv_survey_page)
next
  case (move_slider s v)
  then show ?case by (simp add: inv_move_slider)
next
  case (click_next s)
  then show ?case by (simp add: inv_next)
qed

section \<open>The callbacks\<close>

lemma next_callback_ok:
  assumes "slider s (idx s) = Some v"
  shows "next_callback s =
           (Inr (), s\<lparr>responses := responses s @ [v], idx := idx s + 1,
                       phase := (if idx s + 1 \<ge> length (exposures s) then Done else phase s)\<rparr>)"
  using assms by (simp add: next_callback_def Let_def)

lemma next_callback_raises:
  assumes "slider s (idx s) = None"
  shows "next_callback s = (Inl KeyError, s)"
  using assms by (simp add: next_callback_def)

lemma next_callback_Inr:
  assumes "next_callback s = (Inr (), s')"
  obtains v where "slider s (idx s) = Some v"
    "s' = s\<lparr>responses := responses s @ [v], idx := idx s + 1,
             phase := (if idx s + 1 \<ge> length (exposures s) then Done else phase s)\<rparr>"
proof (cases "slider s (idx s)")
  case None
  then have "next_callback s = (Inl KeyError, s)"
    by (rule next_callback_raises)
  with assms show ?thesis
    by simp
next
  case (Some v)
  then have "next_callback s =
           (Inr (), s\<lparr>responses := responses s @ [v], idx := idx s + 1,
                       phase := (if idx s + 1 \<ge> length (exposures s) then Done else phase s)\<rparr>)"
    by (rule next_callback_ok)
  with assms have "s' = s\<lparr>responses := responses s @ [v], idx := idx s + 1,
             phase := (if idx s + 1 \<ge> length (exposures s) then Done else phase s)\<rparr>"
    by (simp only: prod.inject)
  with Some show ?thesis
    by (rule that)
qed

lemma reachable_after_begin: "reachable after_begin"
  unfolding after_begin_def
  by (rule reachable.click_begin [OF reachable.start]) (simp add: session_defaults_def)

lemma after_begin_facts:
  "phase after_begin = Survey" "idx after_begin = 0" "slider after_begin 0 = None"
  "length (exposures after_begin) = 3"
  by code_simp+

lemma begin_three_usable_ok:
  "begin_callback (\<lambda>i. 2) three_usable (session_defaults ''u'') = (Inr (), after_begin)"
proof -
  have "fst (begin_callback (\<lambda>i. 2) three_usable (session_defaults ''u'')) = Inr ()"
    by code_simp
  then show ?thesis
    by (simp add: after_begin_def prod_eq_iff)
qed

lemma next_first_story_rated_ok:
  "next_callback first_story_rated = (Inr (), second_story)"
proof -
  have "fst (next_callback first_story_rated) = Inr ()"
    by code_simp
  then show ?thesis
    by (simp add: second_story_def prod_eq_iff)
qed

text \<open>
  C3. In every session that arises there are as many responses as the index says. Begin
  leaves the index at 0 with no response, and a Next that ends normally keeps the
  equality: it puts exactly one rating, the value of the current slider, at the end of
  the responses and adds exactly one to the index.
\<close>

theorem responses_length_is_idx:
  "(reachable s \<longrightarrow> length (responses s) = idx s) \<and>
   (begin_callback rng http_get b = (Inr (), b') \<longrightarrow> idx b' = 0 \<and> responses b' = []) \<and>
   (length (responses n) = idx n \<and> next_callback n = (Inr (), n') \<longrightarrow>
      length (responses n') = idx n' \<and> idx n' = idx n + 1 \<and>
      butlast (responses n') = responses n \<and>
      slider n (idx n) = Some (last (responses n')))"
proof -
  have always: "length (responses s) = idx s" if "reachable s"
  proof -
    from that have "session_inv s" by (rule reachable_inv)
    then show ?thesis by (simp add: session_inv_def)
  qed
  have begun: "idx b' = 0 \<and> responses b' = []"
    if b: "begin_callback rng http_get b = (Inr (), b')"
  proof (cases rule: begin_callback_cases [of rng http_get b])
    case (raised e)
    with b show ?thesis by simp
  next
    case (ok live)
    from b ok(2) have "b' = b\<lparr>start_score := Some (start_slider b),
        exposures := sample_pool rng 0 (min (length live) NUM_EXPOSURES) live,
        idx := 0, responses := [], phase := Survey\<rparr>"
      by (simp only: prod.inject)
    then show ?thesis by simp
  qed
  have after_next: "length (responses n') = idx n' \<and> idx n' = idx n + 1 \<and>
      butlast (responses n') = responses n \<and>
      slider n (idx n) = Some (last (responses n'))"
    if l: "length (responses n) = idx n" and c: "next_callback n = (Inr (), n')"
  proof -
    from c obtain v where "slider n (idx n) = Some v" and "n' = n\<lparr>responses := responses n @ [v], idx := idx n + 1,
             phase := (if idx n + 1 \<ge> length (exposures n) then Done else phase n)\<rparr>"
      by (rule next_callback_Inr)
    with l show ?thesis by simp
  qed
  from always begun after_next show ?thesis
    by blast
qed

theorem responses_length_is_idx_witness:
  "reachable (session_defaults ''u'') \<and>
   length (responses (session_defaults ''u'')) = idx (session_defaults ''u'') \<and>
   begin_callback (\<lambda>i. 2) three_usable (session_defaults ''u'') = (Inr (), after_begin) \<and>
   idx after_begin = 0 \<and> responses after_begin = [] \<and>
   length (responses first_story_rated) = idx first_story_rated \<and>
   next_callback first_story_rated = (Inr (), second_story) \<and>
   length (responses second_story) = idx second_story \<and>
   idx second_story = idx first_story_rated + 1 \<and>
   butlast (responses second_story) = responses first_story_rated"
proof -
  have r: "reachable (session_defaults ''u'')"
    by (rule reachable.start)
  have l: "length (responses first_story_rated) = idx first_story_rated"
    by code_simp
  note w = responses_length_is_idx [of "session_defaults ''u''" "\<lambda>i. 2" three_usable
      "session_defaults ''u''" after_begin first_story_rated second_story]
  from w r have "length (responses (session_defaults ''u'')) = idx (session_defaults ''u'')"
    by blast
  moreover from w begin_three_usable_ok have "idx after_begin = 0 \<and> responses after_begin = []"
    by blast
  moreover from w l next_first_story_rated_ok
  have "length (responses second_story) = idx second_story \<and>
        idx second_story = idx first_story_rated + 1 \<and>
        butlast (responses second_story) = responses first_story_rated"
    by blast
  ultimately show ?thesis
    using r l begin_three_usable_ok next_first_story_rated_ok by blast
qed

text \<open>
  C4. In the survey, with the slider of the current story in the session, Next ends
  normally; pressed at the last story (index equal to the number of exposures minus
  one) it moves the phase to \<open>Done\<close>, and pressed before the last story it leaves the
  phase at \<open>Survey\<close>.
\<close>

theorem next_callback_phase:
  assumes "phase s = Survey" and "slider s (idx s) \<noteq> None"
  shows "fst (next_callback s) = Inr () \<and>
         (int (idx s) = int (length (exposures s)) - 1 \<longrightarrow>
            phase (snd (next_callback s)) = Done) \<and>
         (int (idx s) < int (length (exposures s)) - 1 \<longrightarrow>
            phase (snd (next_callback s)) = Survey)"
proof -
  from assms(2) obtain v where "slider s (idx s) = Some v"
    by blast
  then have "next_callback s =
           (Inr (), s\<lparr>responses := responses s @ [v], idx := idx s + 1,
                       phase := (if idx s + 1 \<ge> length (exposures s) then Done else phase s)\<rparr>)"
    by (rule next_callback_ok)
  with assms(1) show ?thesis
    by auto
qed

theorem next_callback_phase_witness:
  "phase at_last_story = Survey \<and> slider at_last_story (idx at_last_story) \<noteq> None \<and>
   int (idx at_last_story) = int (length (exposures at_last_story)) - 1 \<and>
   fst (next_callback at_last_story) = Inr () \<and>
   phase (snd (next_callback at_last_story)) = Done \<and>
   phase at_first_story = Survey \<and> slider at_first_story (idx at_first_story) \<noteq> None \<and>
   int (idx at_first_story) < int (length (exposures at_first_story)) - 1 \<and>
   fst (next_callback at_first_story) = Inr () \<and>
   phase (snd (next_callback at_first_story)) = Survey"
proof -
  have l: "phase at_last_story = Survey" "slider at_last_story (idx at_last_story) \<noteq> None"
    "int (idx at_last_story) = int (length (exposures at_last_story)) - 1"
    by (simp_all add: at_last_story_def two_stories_def)
  have f: "phase at_first_story = Survey" "slider at_first_story (idx at_first_story) \<noteq> None"
    "int (idx at_first_story) < int (length (exposures at_first_story)) - 1"
    by (simp_all add: at_first_story_def two_stories_def)
  from next_callback_phase [OF l(1) l(2)] l(3)
  have "fst (next_callback at_last_story) = Inr () \<and> phase (snd (next_callback at_last_story)) = Done"
    by blast
  moreover from next_callback_phase [OF f(1) f(2)] f(3)
  have "fst (next_callback at_first_story) = Inr () \<and>
        phase (snd (next_callback at_first_story)) = Survey"
    by blast
  ultimately show ?thesis
    using l f by blast
qed

section \<open>Begin\<close>

lemma fetch_fails:
  assumes "http_get query n = ConnectionFailed \<or>
     (\<exists>body. http_get query n = Reply status body \<and> 400 \<le> status \<and> status < 600)"
  shows "\<exists>e. fetch_live_exposures http_get query n = Inl e"
  using assms by (auto simp add: fetch_live_exposures_def)

lemma begin_callback_raises:
  assumes "fetch_live_exposures http_get CANDIDATE 10 = Inl e"
  shows "begin_callback rng http_get s = (Inl e, s\<lparr>start_score := Some (start_slider s)\<rparr>)"
  using assms by (simp add: begin_callback_def)

lemma fetch_nothing_usable: "fetch_live_exposures nothing_usable CANDIDATE 10 = Inr []"
  by (simp add: fetch_live_exposures_def nothing_usable_def List.map_filter_simps exposure_of_def
      no_text_def py_or_def truthy_def)

lemma fetch_three_usable:
  "fetch_live_exposures three_usable CANDIDATE 10 =
     Inr [\<lparr>headline = ''Mayor speaks'', summary = ''A speech.''\<rparr>,
          \<lparr>headline = ''Poll released'', summary = ''Numbers.''\<rparr>,
          \<lparr>headline = ''Town hall'', summary = ''Questions.''\<rparr>]"
  by (simp add: fetch_live_exposures_def three_usable_def List.map_filter_simps exposure_of_def
      story_a_def story_b_def story_c_def no_text_def py_or_def truthy_def)

lemma no_exposure_never_done:
  assumes "reachable s" and "exposures s = []"
  shows "phase s \<noteq> Done"
  using reachable_inv [OF assms(1)] assms(2)
  by (auto simp add: session_inv_def)

lemma final_page_no_response: "responses s = [] \<Longrightarrow> \<exists>e. final_page s = Inl e"
  by (simp add: final_page_def compute_level_refines split: option.splits)

text \<open>
  C5 fails on the code. A reply whose articles are all unusable makes Begin end normally
  with no exposure and no response, in the phase \<open>Survey\<close>, not \<open>Done\<close>; the survey
  page then raises \<open>IndexError\<close> at \<open>exposures[0]\<close> and leaves the session as it is.
  (By \<open>no_exposure_never_done\<close> no later step reaches \<open>Done\<close> either, and by
  \<open>final_page_no_response\<close> the final page would raise without a response.)
\<close>

theorem empty_exposure_set_raises:
  "fetch_live_exposures nothing_usable CANDIDATE 10 = Inr [] \<and>
   fst (begin_callback (\<lambda>i. 0) nothing_usable (session_defaults ''u'')) = Inr () \<and>
   exposures (snd (begin_callback (\<lambda>i. 0) nothing_usable (session_defaults ''u''))) = [] \<and>
   responses (snd (begin_callback (\<lambda>i. 0) nothing_usable (session_defaults ''u''))) = [] \<and>
   phase (snd (begin_callback (\<lambda>i. 0) nothing_usable (session_defaults ''u''))) = Survey \<and>
   survey_page (snd (begin_callback (\<lambda>i. 0) nothing_usable (session_defaults ''u''))) =
     (Inl IndexError, snd (begin_callback (\<lambda>i. 0) nothing_usable (session_defaults ''u'')))"
  by (simp add: fetch_nothing_usable begin_callback_def random_sample_def session_defaults_def
      survey_page_def)

text \<open>
  C6 as stated is false: when the fetch fails, Begin has already stored the start score.
  On a new session without connection the start score is 50 afterwards, and was unset
  before.
\<close>

theorem begin_callback_fetch_failure_counterexample:
  "offline CANDIDATE 10 = ConnectionFailed \<and>
   fst (begin_callback (\<lambda>i. 0) offline (session_defaults ''u'')) = Inl RequestException \<and>
   start_score (session_defaults ''u'') = None \<and>
   start_score (snd (begin_callback (\<lambda>i. 0) offline (session_defaults ''u''))) = Some 50"
  by (simp add: begin_callback_def fetch_live_exposures_def offline_def session_defaults_def)

text \<open>
  C6 amended. When \<open>requests.get\<close> raises or the reply has a status from 400 to 599,
  Begin raises: the phase, the exposures, the index and the responses are what they were
  (so the phase is still \<open>Init\<close> and Begin can be pressed again), and the start score
  is set to the value of the start slider.
\<close>

theorem begin_callback_fetch_failure:
  assumes "http_get CANDIDATE 10 = ConnectionFailed \<or>
     (\<exists>body. http_get CANDIDATE 10 = Reply status body \<and> 400 \<le> status \<and> status < 600)"
  shows "\<exists>e. begin_callback rng http_get s = (Inl e, s\<lparr>start_score := Some (start_slider s)\<rparr>) \<and>
         phase (snd (begin_callback rng http_get s)) = phase s \<and>
         exposures (snd (begin_callback rng http_get s)) = exposures s \<and>
         idx (snd (begin_callback rng http_get s)) = idx s \<and>
         responses (snd (begin_callback rng http_get s)) = responses s \<and>
         start_score (snd (begin_callback rng http_get s)) = Some (start_slider s)"
proof -
  from assms obtain e where "fetch_live_exposures http_get CANDIDATE 10 = Inl e"
    using fetch_fails by blast
  then have "begin_callback rng http_get s = (Inl e, s\<lparr>start_score := Some (start_slider s)\<rparr>)"
    by (rule begin_callback_raises)
  then show ?thesis
    by simp
qed

theorem begin_callback_fetch_failure_witness:
  "offline CANDIDATE 10 = ConnectionFailed \<and>
   (\<exists>e. begin_callback (\<lambda>i. 0) offline (session_defaults ''u'') =
          (Inl e, (session_defaults ''u'')\<lparr>start_score := Some 50\<rparr>)) \<and>
   phase (snd (begin_callback (\<lambda>i. 0) offline (session_defaults ''u''))) = Init \<and>
   unavailable CANDIDATE 10 = Reply 503 None \<and>
   (\<exists>e. begin_callback (\<lambda>i. 0) unavailable (session_defaults ''u'') =
          (Inl e, (session_defaults ''u'')\<lparr>start_score := Some 50\<rparr>)) \<and>
   phase (snd (begin_callback (\<lambda>i. 0) unavailable (session_defaults ''u''))) = Init"
proof -
  have off: "offline CANDIDATE 10 = ConnectionFailed"
    by (simp add: offline_def)
  then have "offline CANDIDATE 10 = ConnectionFailed \<or>
     (\<exists>body. offline CANDIDATE 10 = Reply 0 body \<and> 400 \<le> (0::nat) \<and> (0::nat) < 600)"
    by (rule disjI1)
  note a = begin_callback_fetch_failure [where http_get = offline and status = 0
      and rng = "\<lambda>i. 0" and s = "session_defaults ''u''", OF this]
  have una: "unavailable CANDIDATE 10 = Reply 503 None"
    by (simp add: unavailable_def)
  then have "unavailable CANDIDATE 10 = ConnectionFailed \<or>
     (\<exists>body. unavailable CANDIDATE 10 = Reply 503 body \<and> 400 \<le> (503::nat) \<and> (503::nat) < 600)"
    by simp
  note b = begin_callback_fetch_failure [where http_get = unavailable and status = 503
      and rng = "\<lambda>i. 0" and s = "session_defaults ''u''", OF this]
  from a b off una show ?thesis
    by (simp add: session_defaults_def)
qed

text \<open>
  C7. When the fetch gives the usable exposures \<open>live\<close>, Begin ends normally in the
  phase \<open>Survey\<close> with the exposures at pairwise different places of \<open>live\<close>, as many as
  the smaller of \<open>length live\<close> and \<open>NUM_EXPOSURES\<close>: never more than
  \<open>NUM_EXPOSURES\<close>, and three when \<open>live\<close> has three.
\<close>

theorem begin_callback_sample:
  assumes "fetch_live_exposures http_get CANDIDATE 10 = Inr live"
  shows "\<exists>picks.
     begin_callback rng http_get s =
       (Inr (), s\<lparr>start_score := Some (start_slider s), exposures := map ((!) live) picks,
                   idx := 0, responses := [], phase := Survey\<rparr>) \<and>
     distinct picks \<and> set picks \<subseteq> {..<length live} \<and>
     length picks = min (length live) NUM_EXPOSURES \<and>
     length picks \<le> NUM_EXPOSURES \<and>
     (length live = 3 \<longrightarrow> length picks = 3)"
proof -
  let ?k = "min (length live) NUM_EXPOSURES"
  let ?picks = "sample_pool rng 0 ?k [0..<length live]"
  have k: "?k \<le> length live"
    by simp
  have "begin_callback rng http_get s =
       (Inr (), s\<lparr>start_score := Some (start_slider s), exposures := sample_pool rng 0 ?k live,
                   idx := 0, responses := [], phase := Survey\<rparr>)"
    using assms by (simp add: begin_callback_def random_sample_def)
  also have "sample_pool rng 0 ?k live = map ((!) live) ?picks"
    using k by (rule sample_pool_positions)
  finally have 1: "begin_callback rng http_get s =
       (Inr (), s\<lparr>start_score := Some (start_slider s), exposures := map ((!) live) ?picks,
                   idx := 0, responses := [], phase := Survey\<rparr>)" .
  from k have 2: "distinct ?picks \<and> set ?picks \<subseteq> {..<length live}"
    by (rule sample_pool_distinct_positions)
  have 3: "length ?picks = ?k"
    by (rule length_sample_pool)
  then have 4: "length ?picks \<le> NUM_EXPOSURES"
    by simp
  have 5: "length live = 3 \<longrightarrow> length ?picks = 3"
    by (simp add: length_sample_pool NUM_EXPOSURES_def)
  from 1 2 3 4 5 show ?thesis
    by blast
qed

theorem begin_callback_sample_witness:
  "fetch_live_exposures three_usable CANDIDATE 10 =
     Inr [\<lparr>headline = ''Mayor speaks'', summary = ''A speech.''\<rparr>,
          \<lparr>headline = ''Poll released'', summary = ''Numbers.''\<rparr>,
          \<lparr>headline = ''Town hall'', summary = ''Questions.''\<rparr>] \<and>
   fst (begin_callback (\<lambda>i. 2) three_usable (session_defaults ''u'')) = Inr () \<and>
   phase after_begin = Survey \<and>
   length (exposures after_begin) = 3"
proof -
  let ?live = "[\<lparr>headline = ''Mayor speaks'', summary = ''A speech.''\<rparr>,
          \<lparr>headline = ''Poll released'', summary = ''Numbers.''\<rparr>,
          \<lparr>headline = ''Town hall'', summary = ''Questions.''\<rparr>]"
  have three: "length ?live = 3"
    by simp
  from begin_callback_sample [OF fetch_three_usable, of "\<lambda>i. 2" "session_defaults ''u''"]
  obtain picks where
    b: "begin_callback (\<lambda>i. 2) three_usable (session_defaults ''u'') =
       (Inr (), (session_defaults ''u'')\<lparr>start_score := Some (start_slider (session_defaults ''u'')),
          exposures := map ((!) ?live) picks, idx := 0, responses := [], phase := Survey\<rparr>)"
    and l: "length ?live = 3 \<longrightarrow> length picks = 3"
    by blast
  from l three have "length picks = 3"
    by blast
  with b fetch_three_usable show ?thesis
    by (simp add: after_begin_def)
qed

section \<open>The default of the rating slider\<close>

text \<open>
  The slider of the current story has no value when the story is reached: after Begin no
  rating slider has one, and after a Next that ends normally the slider of the new index
  has none.
\<close>

lemma slider_fresh_after_begin:
  assumes "reachable s" and "phase s = Init"
  shows "slider (snd (begin_callback rng http_get s)) i = None"
proof -
  from assms have "slider s i = None"
    using reachable_inv [OF assms(1)] by (cases i) (simp_all add: session_inv_def)
  then show ?thesis
    by (cases rule: begin_callback_cases [of rng http_get s]) simp_all
qed

lemma slider_fresh_after_next:
  assumes "reachable s" and "next_callback s = (Inr (), s')"
  shows "slider s' (idx s') = None"
proof -
  from assms(2) obtain v where "s' = s\<lparr>responses := responses s @ [v], idx := idx s + 1,
             phase := (if idx s + 1 \<ge> length (exposures s) then Done else phase s)\<rparr>"
    by (rule next_callback_Inr)
  then show ?thesis
    using reachable_inv [OF assms(1)] by (simp add: session_inv_def)
qed

lemma reachable_second_story: "reachable second_story"
proof -
  have 1: "reachable after_begin"
    by (rule reachable_after_begin)
  have "phase after_begin = Survey"
    by code_simp
  with 1 have 2: "reachable first_story_shown"
    unfolding first_story_shown_def by (rule reachable.show_survey)
  have "phase first_story_shown = Survey" "slider first_story_shown (idx first_story_shown) \<noteq> None"
    by code_simp+
  with 2 have 3: "reachable first_story_rated"
    unfolding first_story_rated_def by (rule reachable.move_slider)
  have "phase first_story_rated = Survey"
    by code_simp
  with 3 show ?thesis
    unfolding second_story_def by (rule reachable.click_next)
qed

text \<open>
  C8. In the survey, at a story that exists and whose slider has no value yet, the page
  gives the slider its default: the start score at index 0, and the response of index
  \<open>i - 1\<close> (the one collected just before) at an index \<open>i > 0\<close>.
\<close>

theorem survey_page_default_rating:
  assumes "reachable s" and "phase s = Survey" and "idx s < length (exposures s)"
    and "slider s (idx s) = None"
  shows "\<exists>d. survey_page s = (Inr (), s\<lparr>slider := (slider s)(idx s \<mapsto> d)\<rparr>) \<and>
           (if idx s = 0 then start_score s = Some d else d = responses s ! (idx s - 1))"
proof -
  from assms(1) have inv: "session_inv s"
    by (rule reachable_inv)
  with assms(2) obtain v where v: "start_score s = Some v"
    by (auto simp add: session_inv_def)
  from inv have len: "length (responses s) = idx s"
    by (simp add: session_inv_def)
  show ?thesis
  proof (cases "idx s = 0")
    case True
    with assms(3,4) v have "survey_page s = (Inr (), s\<lparr>slider := (slider s)(idx s \<mapsto> v)\<rparr>)"
      by (simp add: survey_page_def)
    with True v show ?thesis
      by simp
  next
    case False
    with len have ne: "responses s \<noteq> []"
      by auto
    with len have "last (responses s) = responses s ! (idx s - 1)"
      by (simp add: last_conv_nth)
    moreover from False ne assms(3,4)
    have "survey_page s = (Inr (), s\<lparr>slider := (slider s)(idx s \<mapsto> last (responses s))\<rparr>)"
      by (simp add: survey_page_def Let_def)
    ultimately show ?thesis
      using False by simp
  qed
qed

theorem survey_page_default_rating_witness:
  "reachable after_begin \<and> phase after_begin = Survey \<and> idx after_begin = 0 \<and>
   idx after_begin < length (exposures after_begin) \<and> slider after_begin 0 = None \<and>
   start_score after_begin = Some 50 \<and>
   survey_page after_begin = (Inr (), after_begin\<lparr>slider := (slider after_begin)(0 \<mapsto> 50)\<rparr>) \<and>
   reachable second_story \<and> phase second_story = Survey \<and> idx second_story = 1 \<and>
   idx second_story < length (exposures second_story) \<and> slider second_story 1 = None \<and>
   responses second_story = [70] \<and>
   survey_page second_story = (Inr (), second_story\<lparr>slider := (slider second_story)(1 \<mapsto> 70)\<rparr>)"
proof -
  have a: "phase after_begin = Survey" "idx after_begin = 0"
    "idx after_begin < length (exposures after_begin)" "slider after_begin 0 = None"
    "start_score after_begin = Some 50"
    by code_simp+
  from a(2,4) have a4: "slider after_begin (idx after_begin) = None"
    by simp
  have b: "phase second_story = Survey" "idx second_story = 1"
    "idx second_story < length (exposures second_story)" "slider second_story 1 = None"
    "responses second_story = [70]"
    by code_simp+
  from b(2,4) have b4: "slider second_story (idx second_story) = None"
    by simp
  from survey_page_default_rating [OF reachable_after_begin a(1) a(3) a4] a(2,5)
  have 1: "survey_page after_begin = (Inr (), after_begin\<lparr>slider := (slider after_begin)(0 \<mapsto> 50)\<rparr>)"
    by auto
  from survey_page_default_rating [OF reachable_second_story b(1) b(3) b4] b(2,5)
  have 2: "survey_page second_story = (Inr (), second_story\<lparr>slider := (slider second_story)(1 \<mapsto> 70)\<rparr>)"
    by auto
  from a b 1 2 reachable_after_begin reachable_second_story show ?thesis
    by blast
qed

section \<open>The rows of the payload\<close>

lemma payload_loop_eq:
  "payload_loop uid start resp i es payload =
     (if es = [] \<or> i + length es \<le> length resp
      then Inr (payload @ map (\<lambda>(k, e). \<lparr>row_user_id = uid, initial_score = start, snippet_i = k,
                          row_headline = headline e, row_summary = summary e,
                          rating = resp ! k\<rparr>) (enumerate i es))
      else Inl IndexError)"
  by (induction es arbitrary: i payload) auto

text \<open>
  C9 as stated is false: with two exposures and three responses the lengths differ, and
  the loop raises nothing; it builds the two rows of the first two responses and drops
  the third.
\<close>

theorem build_payload_surplus_counterexample:
  "length two_stories \<noteq> length [60, 70, 80 :: rat] \<and>
   build_payload ''u'' 50 two_stories [60, 70, 80] =
     Inr [\<lparr>row_user_id = ''u'', initial_score = 50, snippet_i = 0,
           row_headline = ''Mayor speaks'', row_summary = ''A speech.'', rating = 60\<rparr>,
          \<lparr>row_user_id = ''u'', initial_score = 50, snippet_i = 1,
           row_headline = ''Poll released'', row_summary = ''Numbers.'', rating = 70\<rparr>]"
  by (simp add: two_stories_def build_payload_def)

text \<open>
  C9 amended. With fewer responses than exposures the loop raises \<open>IndexError\<close> and no
  rows come out. With at least as many responses as exposures it raises nothing and
  builds one row for each exposure, with the response of the same index; responses
  beyond the exposures are left out.
\<close>

theorem build_payload_lengths:
  "(length resp < length exps \<longrightarrow> build_payload uid start exps resp = Inl IndexError) \<and>
   (length exps \<le> length resp \<longrightarrow>
      build_payload uid start exps resp =
        Inr (map (\<lambda>(i, e). \<lparr>row_user_id = uid, initial_score = start, snippet_i = i,
                              row_headline = headline e, row_summary = summary e,
                              rating = resp ! i\<rparr>) (enumerate 0 exps)))"
  by (simp add: build_payload_def payload_loop_eq)

theorem build_payload_lengths_witness:
  "length [60 :: rat] < length two_stories \<and>
   build_payload ''u'' 50 two_stories [60] = Inl IndexError \<and>
   length two_stories \<le> length [60, 70, 80 :: rat] \<and>
   build_payload ''u'' 50 two_stories [60, 70, 80] =
     Inr [\<lparr>row_user_id = ''u'', initial_score = 50, snippet_i = 0,
           row_headline = ''Mayor speaks'', row_summary = ''A speech.'', rating = 60\<rparr>,
          \<lparr>row_user_id = ''u'', initial_score = 50, snippet_i = 1,
           row_headline = ''Poll released'', row_summary = ''Numbers.'', rating = 70\<rparr>]"
proof -
  have short: "length [60 :: rat] < length two_stories"
    by (simp add: two_stories_def)
  have long: "length two_stories \<le> length [60, 70, 80 :: rat]"
    by (simp add: two_stories_def)
  from short build_payload_lengths [of "[60]" two_stories "''u''" 50]
  have a: "build_payload ''u'' 50 two_stories [60] = Inl IndexError"
    by blast
  from long build_payload_lengths [of "[60, 70, 80]" two_stories "''u''" 50]
  have "build_payload ''u'' 50 two_stories [60, 70, 80] =
        Inr (map (\<lambda>(i, e). \<lparr>row_user_id = ''u'', initial_score = 50, snippet_i = i,
                              row_headline = headline e, row_summary = summary e,
                              rating = [60, 70, 80] ! i\<rparr>) (enumerate 0 two_stories))"
    by blast
  then have b: "build_payload ''u'' 50 two_stories [60, 70, 80] =
     Inr [\<lparr>row_user_id = ''u'', initial_score = 50, snippet_i = 0,
           row_headline = ''Mayor speaks'', row_summary = ''A speech.'', rating = 60\<rparr>,
          \<lparr>row_user_id = ''u'', initial_score = 50, snippet_i = 1,
           row_headline = ''Poll released'', row_summary = ''Numbers.'', rating = 70\<rparr>]"
    by (simp add: two_stories_def)
  from short long a b show ?thesis
    by blast
qed

text \<open>
  In a session that arises, the final page is reached with as many responses as
  exposures and at least one of each: it raises nothing and stores one row per exposure.
\<close>

lemma final_page_done:
  assumes "reachable s" and "phase s = Done"
  shows "\<exists>level payload. final_page s = Inr (level, payload) \<and>
           length payload = length (exposures s)"
proof -
  from assms have inv: "session_inv s"
    by (simp add: reachable_inv)
  with assms(2) obtain start where start: "start_score s = Some start"
    by (auto simp add: session_inv_def)
  from inv assms(2) have len: "length (responses s) = length (exposures s)"
    and ne: "exposures s \<noteq> []"
    by (simp_all add: session_inv_def)
  from len ne have "responses s \<noteq> []"
    by auto
  with start len show ?thesis
    by (simp add: final_page_def compute_level_refines build_payload_def payload_loop_eq)
qed

end
